theory Spec2Isabelle
  imports Main
begin

section \<open>Paths\<close>

text \<open>
  The scanner takes paths apart and puts them together again with the POSIX functions
  \<open>path.parse\<close>, \<open>path.format\<close> and \<open>path.dirname\<close> of the runtime. A path is a
  \<open>string\<close>; the separator is \<open>/\<close>.
\<close>

record ParsedPath =
  root :: string
  dir :: string
  base :: string
  ext :: string
  name :: string

definition isSep :: "char \<Rightarrow> bool" where
  "isSep c = (c = CHR ''/'')"

definition notSep :: "char \<Rightarrow> bool" where
  "notSep c = (if c = CHR ''/'' then False else True)"

definition notDot :: "char \<Rightarrow> bool" where
  "notDot c = (if c = CHR ''.'' then False else True)"

text \<open>
  \<open>splitExt rooted b\<close> splits the last component \<open>b\<close> into name and extension at its last
  dot. There is no extension when \<open>b\<close> has no dot, when its only dot comes first, or when
  \<open>b\<close> is \<open>..\<close>; \<open>rooted\<close> says that the component directly follows the leading separator
  of an absolute path, where \<open>path.parse\<close> does not recognise \<open>..\<close>.
\<close>

definition splitExt :: "bool \<Rightarrow> string \<Rightarrow> string \<times> string" where
  "splitExt rooted b =
     (if list_all notDot b then (b, [])
      else let startDot = length b - 1 - length (takeWhile notDot (rev b))
           in if startDot = 0 then (b, [])
              else if hd b = CHR ''.'' \<and> startDot = length b - 1 \<and> startDot = 1
                      \<and> (if rooted then False else True)
                   then (b, [])
                   else (take startDot b, drop startDot b))"

text \<open>
  \<open>path.parse\<close> scans the path from its end: trailing separators are skipped, the
  characters up to the next separator are the base, and what precedes that separator is
  the directory. The leading separator of an absolute path is never scanned.
\<close>

definition path_parse :: "string \<Rightarrow> ParsedPath" where
  "path_parse p =
     (if p = [] then \<lparr>root = [], dir = [], base = [], ext = [], name = []\<rparr>
      else
        let isAbsolute = (hd p = CHR ''/'');
            scanned = (if isAbsolute then tl p else p);
            trimmed = dropWhile isSep (rev scanned);
            b = rev (takeWhile notSep trimmed);
            front = dropWhile notSep trimmed;
            ne = splitExt (isAbsolute \<and> front = []) b
        in \<lparr>root = (if isAbsolute then ''/'' else []),
            dir = (if front = [] then (if isAbsolute then ''/'' else [])
                   else if isAbsolute then CHR ''/'' # rev (tl front)
                   else rev (tl front)),
            base = b,
            ext = snd ne,
            name = fst ne\<rparr>)"

definition path_format :: "ParsedPath \<Rightarrow> string" where
  "path_format po =
     (let d = (if dir po = [] then root po else dir po);
          b = (if base po = [] then name po @ ext po else base po)
      in if d = [] then b
         else if d = root po then d @ b
         else d @ ''/'' @ b)"

definition path_dirname :: "string \<Rightarrow> string" where
  "path_dirname p =
     (if p = [] then ''.''
      else
        let hasRoot = (hd p = CHR ''/'');
            front = dropWhile notSep (dropWhile isSep (rev (tl p)))
        in if front = [] then (if hasRoot then ''/'' else ''.'')
           else if hasRoot \<and> length front = 1 then ''//''
           else take (length front) p)"

section \<open>The pattern of a directory excluded by name\<close>

text \<open>
  \<open>reGlobBaseName\<close> is \<open>/^\*\*\/([\w\.-]+)\/?$/\<close>: two stars, a separator, one or more
  characters that are ASCII letters, digits, underscore, dot or hyphen, and at most one
  separator at the end.
\<close>

definition nameChar :: "char \<Rightarrow> bool" where
  "nameChar c = (c \<in> set ''abcdefghijklmnopqrstuvwxyzABCDEFGHIJKLMNOPQRSTUVWXYZ0123456789_.-'')"

definition reGlobBaseName_test :: "string \<Rightarrow> bool" where
  "reGlobBaseName_test s =
     (case s of
        c1 # c2 # c3 # r \<Rightarrow>
          c1 = CHR ''*'' \<and> c2 = CHR ''*'' \<and> c3 = CHR ''/''
          \<and> (if takeWhile nameChar r = [] then False else True)
          \<and> (dropWhile nameChar r = [] \<or> dropWhile nameChar r = ''/'')
      | _ \<Rightarrow> False)"

section \<open>Data model\<close>

datatype IVariable = IVariable string "string option" nat

datatype IMixin = IMixin string "IVariable list" nat

record IImport =
  filepath :: string
  dynamic :: bool
  css :: bool

text \<open>
  A symbol table (the fields \<open>functions\<close> and \<open>imports\<close> are \<open>functions_list\<close> and
  \<open>imports_list\<close> here). \<open>ctime\<close> is the value of \<open>getTime()\<close> of the date the scanner
  stamps on the table; a table that was never stamped has none.
\<close>

record ISymbols =
  document :: string
  variables :: "IVariable list"
  mixins :: "IMixin list"
  functions_list :: "IMixin list"
  imports_list :: "IImport list"
  ctime :: "nat option"

text \<open>
  The entry the extractor works on. Its fields \<open>filepath\<close>, \<open>dir\<close> and \<open>ctime\<close> carry the
  prefix \<open>entry\<close> here, \<open>ctime\<close> again as the value of \<open>getTime()\<close>.
\<close>

record IFile =
  entry_filepath :: string
  entry_dir :: string
  entry_ctime :: nat

text \<open>
  An entry reported by the directory walker: \<open>stat.path\<close>, \<open>stat.isFile()\<close> and
  \<open>stat.ctime\<close> (here \<open>stat_ctime\<close>). The walker is given the resolved root as base path,
  so \<open>path\<close> is the full path of the entry.
\<close>

record IEntry =
  path :: string
  isFile :: bool
  stat_ctime :: nat

datatype error = ENOENT | EACCES | EIO | SyntaxError

datatype walkEvent = Found IEntry | WalkError error

text \<open>
  The settings object. \<open>scannerExclude\<close> holds a reference to an array of patterns in the
  store (or nothing); \<open>scanImportedFilesDepth\<close> is any integer the caller wrote there.
\<close>

record ISettings =
  scannerExclude :: "nat option"
  scannerDepth :: nat
  scanImportedFiles :: bool
  scanImportedFilesDepth :: int
  showErrors :: bool

text \<open>
  What the scanner consumes from outside: the directory walker's report for a root and a
  depth (every entry it meets, before filtering, with the path the walker gives it, and
  the errors it meets), \<open>statFile\<close> giving the change time of a path, \<open>readFile\<close>, the
  extraction of declarations and import records from the text of a document, and the
  glob matcher \<open>micromatch(list, patterns)\<close>, a library outside the sources, which returns
  the strings of the list that match the patterns. Nothing is assumed about which
  strings these are.
\<close>

record env =
  readdirStreamStat :: "string \<Rightarrow> nat \<Rightarrow> walkEvent list"
  statFile :: "string \<Rightarrow> error + nat"
  readFile :: "string \<Rightarrow> error + string"
  findSymbols :: "string \<Rightarrow> string \<Rightarrow> error + ISymbols"
  micromatch :: "string list \<Rightarrow> string list \<Rightarrow> string list"

text \<open>
  Modelled from the spec: the cache (\<open>services/cache\<close>) is not among the sources. The
  spec gives its contract as \<open>get(path) -> SymbolTable | absent\<close> and
  \<open>set(path, table)\<close>, the last write winning: a partial map from paths to tables, where
  \<open>cache.get\<close> is application and \<open>cache.set\<close> is update. The state holds this map
  together with the other mutable objects: \<open>arrays\<close>, the arrays of strings that settings
  refer to, and \<open>parsed\<close>, the uri of every document handed to the parser so far, oldest
  first.
\<close>

record state =
  arrays :: "nat \<rightharpoonup> string list"
  cache :: "string \<rightharpoonup> ISymbols"
  parsed :: "string list"

text \<open>
  Modelled from the spec: the parser (\<open>services/parser\<close>) is not among the sources.
  The spec gives its contract as \<open>parse(text, path) -> SymbolTable\<close>, fallible, and says
  that the table's \<open>document\<close> is the path of the file it describes. So \<open>parseDocument\<close>
  returns what the environment extracts from the text, under the uri of the document
  it was given, and fails when the extraction fails.
\<close>

definition parseDocument :: "env \<Rightarrow> string \<Rightarrow> string \<Rightarrow> ISettings \<Rightarrow> error + ISymbols" where
  "parseDocument e uri txt settings =
     (case findSymbols e uri txt of
        Inl err \<Rightarrow> Inl err
      | Inr symbols \<Rightarrow> Inr (symbols\<lparr>document := uri\<rparr>))"

section \<open>The symbol extractor\<close>

definition startsWith :: "string \<Rightarrow> string \<Rightarrow> bool" where
  "startsWith s pre = (take (length pre) s = pre)"

text \<open>\<open>base.replace(/^_/, '')\<close>\<close>

definition replaceLeadingUnderscore :: "string \<Rightarrow> string" where
  "replaceLeadingUnderscore s = (if startsWith s ''_'' then tl s else s)"

text \<open>
  \<open>makeSymbolsForDocument\<close>: a failed read or a failed parse rejects the promise (\<open>Inl\<close>)
  and leaves the cache alone; otherwise the table is stamped with the entry's change
  time and stored under the entry's path, which has lost the underscore of a partial.
\<close>

definition makeSymbolsForDocument ::
    "env \<Rightarrow> state \<Rightarrow> IFile \<Rightarrow> ISettings \<Rightarrow> (error + ISymbols) \<times> state" where
  "makeSymbolsForDocument e st entry settings =
     (case readFile e (entry_filepath entry) of
        Inl err \<Rightarrow> (Inl err, st)
      | Inr txt \<Rightarrow>
          let parsed0 = path_parse (entry_filepath entry);
              fp = (if startsWith (base parsed0) ''_''
                    then path_format (parsed0\<lparr>base := replaceLeadingUnderscore (base parsed0)\<rparr>)
                    else entry_filepath entry);
              st1 = st\<lparr>parsed := parsed st @ [fp]\<rparr>
          in case parseDocument e fp txt settings of
               Inl err \<Rightarrow> (Inl err, st1)
             | Inr symbols0 \<Rightarrow>
                 let symbols = symbols0\<lparr>ctime := Some (entry_ctime entry)\<rparr>
                 in (Inr symbols, cache_update (\<lambda>c. c(fp \<mapsto> symbols)) st1))"

definition makeEntryFile :: "string \<Rightarrow> nat \<Rightarrow> IFile" where
  "makeEntryFile fp ct = \<lparr>entry_filepath = fp, entry_dir = path_dirname fp, entry_ctime = ct\<rparr>"

text \<open>
  The freshness test of both passes,
  \<open>cached && cached.ctime && cached.ctime.getTime() >= entry.ctime.getTime()\<close>:
  the cached table when the test holds, nothing otherwise.
\<close>

definition freshCached :: "ISymbols option \<Rightarrow> IFile \<Rightarrow> ISymbols option" where
  "freshCached cached entry =
     (case cached of
        None \<Rightarrow> None
      | Some t \<Rightarrow>
          (case ctime t of
             None \<Rightarrow> None
           | Some c \<Rightarrow> if entry_ctime entry \<le> c then Some t else None))"

section \<open>The import resolver\<close>

text \<open>The loop over \<open>symbolsList\<close> that looks for a table of the import's target.\<close>

fun inSymbolsList :: "ISymbols list \<Rightarrow> string \<Rightarrow> bool" where
  "inSymbolsList [] fp = False"
| "inSymbolsList (s # ss) fp = (if document s = fp then True else inSymbolsList ss fp)"

definition partialPath :: "string \<Rightarrow> string" where
  "partialPath fp =
     (let original = path_parse fp
      in path_format (original\<lparr>base := CHR ''_'' # base original\<rparr>))"

text \<open>The body of the inner \<open>forEach\<close>: what one import record adds to \<open>importedFiles\<close>.\<close>

definition pushImport :: "ISymbols list \<Rightarrow> IImport \<Rightarrow> string list \<Rightarrow> string list" where
  "pushImport symbolsList x importedFiles =
     (if dynamic x \<or> css x then importedFiles
      else if inSymbolsList symbolsList (filepath x) then importedFiles
      else importedFiles @ [filepath x, partialPath (filepath x)])"

definition collectImportedFiles :: "ISymbols list \<Rightarrow> ISymbols list \<Rightarrow> string list" where
  "collectImportedFiles symbolsList list =
     fold (\<lambda>item importedFiles. fold (pushImport symbolsList) (imports_list item) importedFiles)
       list []"

text \<open>
  One candidate of a wave, settled: nothing when \<open>statFile\<close>, the read or the parse fails
  (\<open>catch(() => null)\<close>), the cached table when it is fresh, a new table otherwise.
\<close>

definition resolveImported :: "env \<Rightarrow> ISettings \<Rightarrow> state \<Rightarrow> string \<Rightarrow> ISymbols option \<times> state" where
  "resolveImported e settings st fp =
     (case statFile e fp of
        Inl err \<Rightarrow> (None, st)
      | Inr ct \<Rightarrow>
          let entry = makeEntryFile fp ct
          in case freshCached (cache st fp) entry of
               Some cached \<Rightarrow> (Some cached, st)
             | None \<Rightarrow>
                 (case makeSymbolsForDocument e st entry settings of
                    (Inl err, st1) \<Rightarrow> (None, st1)
                  | (Inr symbols, st1) \<Rightarrow> (Some symbols, st1)))"

text \<open>
  \<open>Promise.all\<close> over the candidates of a wave. The candidates run concurrently and the
  order in which they reach the cache is not fixed; the model takes the schedule in which
  each candidate runs to its end before the next one starts, in the order of the list.
\<close>

fun resolveAll :: "env \<Rightarrow> ISettings \<Rightarrow> state \<Rightarrow> string list \<Rightarrow> ISymbols option list \<times> state" where
  "resolveAll e settings st [] = ([], st)"
| "resolveAll e settings st (fp # fps) =
     (let r = resolveImported e settings st fp;
          rs = resolveAll e settings (snd r) fps
      in (fst r # fst rs, snd rs))"

text \<open>\<open>resultList.filter((item) => Boolean(item))\<close>\<close>

fun filterBoolean :: "'a option list \<Rightarrow> 'a list" where
  "filterBoolean [] = []"
| "filterBoolean (None # rs) = filterBoolean rs"
| "filterBoolean (Some r # rs) = r # filterBoolean rs"

text \<open>
  \<open>recurse\<close>, with the counter \<open>nesting\<close> of the enclosing function as an argument and in
  the result. The recursion stops when the counter equals the configured depth; a depth
  the counter never reaches does not stop it, so the function is partial: \<open>None\<close> is a
  resolution that never ends.
\<close>

partial_function (option) recurse ::
    "env \<Rightarrow> ISettings \<Rightarrow> ISymbols list \<Rightarrow> nat \<Rightarrow> ISymbols list \<Rightarrow> ISymbols list \<Rightarrow> state
      \<Rightarrow> (ISymbols list \<times> nat \<times> state) option" where
  "recurse e settings symbolsList nesting accum list st =
     (if list = [] \<or> int nesting = scanImportedFilesDepth settings then Some (accum, nesting, st)
      else
        let importedFiles = collectImportedFiles symbolsList list
        in if importedFiles = [] then Some (accum, nesting, st)
           else
             let r = resolveAll e settings st importedFiles;
                 resultList = filterBoolean (fst r)
             in recurse e settings symbolsList (nesting + 1) (accum @ resultList) resultList (snd r))"

declare recurse.simps [code]

definition scannerImportedFiles ::
    "env \<Rightarrow> ISymbols list \<Rightarrow> ISettings \<Rightarrow> state \<Rightarrow> (ISymbols list \<times> nat \<times> state) option" where
  "scannerImportedFiles e symbolsList settings st = recurse e settings symbolsList 0 [] symbolsList st"

section \<open>The workspace scan\<close>

text \<open>\<open>stat.path.slice(-5)\<close>\<close>

definition sliceLast :: "nat \<Rightarrow> string \<Rightarrow> string" where
  "sliceLast n s = drop (length s - n) s"

definition scannerFilter :: "env \<Rightarrow> IEntry \<Rightarrow> string list option \<Rightarrow> bool" where
  "scannerFilter e stat excludePatterns =
     (case excludePatterns of
        None \<Rightarrow> (if isFile stat then sliceLast 5 (path stat) = ''.scss'' else True)
      | Some patterns \<Rightarrow>
          if micromatch e [path stat] patterns = []
          then (if isFile stat then sliceLast 5 (path stat) = ''.scss'' else True)
          else False)"

text \<open>An array behind a reference, and \<open>push\<close> on it.\<close>

definition deref :: "state \<Rightarrow> nat option \<Rightarrow> string list option" where
  "deref st r = (case r of None \<Rightarrow> None | Some a \<Rightarrow> arrays st a)"

definition push :: "nat \<Rightarrow> string \<Rightarrow> state \<Rightarrow> state" where
  "push a v st =
     (case arrays st a of
        None \<Rightarrow> st
      | Some xs \<Rightarrow> arrays_update (\<lambda>h. h(a \<mapsto> xs @ [v])) st)"

text \<open>
  The expansion at the head of \<open>doScanner\<close>. \<open>excludePatterns\<close> is the reference held in
  \<open>settings.scannerExclude\<close>, so the \<open>push\<close> goes to the array of the settings. \<open>forEach\<close>
  visits the elements the array had when the loop began.
\<close>

definition expandExclude :: "ISettings \<Rightarrow> state \<Rightarrow> state" where
  "expandExclude settings st =
     (let excludePatterns = scannerExclude settings
      in case deref st (scannerExclude settings) of
           None \<Rightarrow> st
         | Some patterns \<Rightarrow>
             fold (\<lambda>pattern s.
                     if reGlobBaseName_test pattern
                     then (case excludePatterns of
                             None \<Rightarrow> s
                           | Some a \<Rightarrow> push a (pattern @ ''/**'') s)
                     else s)
               patterns st)"

text \<open>The handler of the \<open>file\<close> event: the settled promise it pushes on \<open>listOfPromises\<close>.\<close>

definition onFile :: "env \<Rightarrow> ISettings \<Rightarrow> state \<Rightarrow> IEntry \<Rightarrow> (error + ISymbols) \<times> state" where
  "onFile e settings st stat =
     (let entry = makeEntryFile (path stat) (stat_ctime stat)
      in case freshCached (cache st (entry_filepath entry)) entry of
           Some cached \<Rightarrow> (Inr cached, st)
         | None \<Rightarrow> makeSymbolsForDocument e st entry settings)"

text \<open>
  The stream of the walker, event by event: the walker applies \<open>scannerFilter\<close> to every
  entry it meets and emits \<open>file\<close> for the files that pass; \<open>error\<close> events are collected.
  As in a wave of the resolver, each extraction runs to its end before the next event.
\<close>

fun scanEvents ::
    "env \<Rightarrow> ISettings \<Rightarrow> nat option \<Rightarrow> state \<Rightarrow> walkEvent list
      \<Rightarrow> (error + ISymbols) list \<times> error list \<times> state" where
  "scanEvents e settings excludePatterns st [] = ([], [], st)"
| "scanEvents e settings excludePatterns st (WalkError err # evs) =
     (let r = scanEvents e settings excludePatterns st evs
      in (fst r, err # fst (snd r), snd (snd r)))"
| "scanEvents e settings excludePatterns st (Found stat # evs) =
     (if scannerFilter e stat (deref st excludePatterns) \<and> isFile stat
      then
        let p = onFile e settings st stat;
            r = scanEvents e settings excludePatterns (snd p) evs
        in (fst p # fst r, fst (snd r), snd (snd r))
      else scanEvents e settings excludePatterns st evs)"

text \<open>\<open>Promise.all\<close> over settled promises: the values, or a rejection if there is one.\<close>

fun promiseAll :: "(error + 'a) list \<Rightarrow> error + 'a list" where
  "promiseAll [] = Inr []"
| "promiseAll (Inl err # ps) = Inl err"
| "promiseAll (Inr v # ps) = (case promiseAll ps of Inl err \<Rightarrow> Inl err | Inr vs \<Rightarrow> Inr (v # vs))"

text \<open>
  How the promise of \<open>doScanner\<close> settles: the first \<open>reject\<close> wins, and \<open>resolve\<close> after a
  \<open>reject\<close> changes nothing.
\<close>

definition settle :: "error option \<Rightarrow> error option \<Rightarrow> 'a \<Rightarrow> error + 'a" where
  "settle rejected1 rejected2 v =
     (case rejected1 of
        Some err \<Rightarrow> Inl err
      | None \<Rightarrow> (case rejected2 of Some err \<Rightarrow> Inl err | None \<Rightarrow> Inr v))"

definition ifShown :: "ISettings \<Rightarrow> error option \<Rightarrow> error option" where
  "ifShown settings err = (if showErrors settings then err else None)"

definition firstError :: "error list \<Rightarrow> error option" where
  "firstError errs = (case errs of [] \<Rightarrow> None | err # _ \<Rightarrow> Some err)"

text \<open>
  \<open>doScanner\<close>. The result pairs the way the returned promise settles (\<open>Inr\<close> resolved,
  \<open>Inl\<close> rejected) with the state once all the work the call started has ended; \<open>None\<close> is
  a scan whose import resolution never ends. When \<open>Promise.all\<close> of the project pass
  rejects, the assignment to \<open>projectSymbols\<close> does not happen and both lists are still
  empty at \<open>resolve\<close>.
\<close>

definition doScanner ::
    "env \<Rightarrow> string \<Rightarrow> ISettings \<Rightarrow> state \<Rightarrow> ((error + ISymbols list) \<times> state) option" where
  "doScanner e rootDir settings st0 =
     (let excludePatterns = scannerExclude settings;
          st1 = expandExclude settings st0;
          r = scanEvents e settings excludePatterns st1
                (readdirStreamStat e rootDir (scannerDepth settings));
          listOfPromises = fst r;
          onError = ifShown settings (firstError (fst (snd r)));
          st2 = snd (snd r)
      in case promiseAll listOfPromises of
           Inl err \<Rightarrow> Some (settle onError (ifShown settings (Some err)) [], st2)
         | Inr projectSymbols \<Rightarrow>
             if scanImportedFiles settings
             then (case scannerImportedFiles e projectSymbols settings st2 of
                     None \<Rightarrow> None
                   | Some (importedSymbols, n, st3) \<Rightarrow>
                       Some (settle onError None (projectSymbols @ importedSymbols), st3))
             else Some (settle onError None projectSymbols, st2))"

section \<open>Notions used in the statements\<close>

text \<open>A table without the import records that are flagged \<open>dynamic\<close> or \<open>css\<close>.\<close>

definition isStatic :: "IImport \<Rightarrow> bool" where
  "isStatic x = (if dynamic x \<or> css x then False else True)"

definition withoutFlagged :: "ISymbols \<Rightarrow> ISymbols" where
  "withoutFlagged item = item\<lparr>imports_list := filter isStatic (imports_list item)\<rparr>"

text \<open>
  A table without the import records whose target is the document of a table of the
  list: the record stays when its \<open>filepath\<close> is not among the documents of the list.
\<close>

definition isUnknown :: "ISymbols list \<Rightarrow> IImport \<Rightarrow> bool" where
  "isUnknown symbolsList x =
     (if filepath x \<in> set (map document symbolsList) then False else True)"

definition withoutKnown :: "ISymbols list \<Rightarrow> ISymbols \<Rightarrow> ISymbols" where
  "withoutKnown symbolsList item =
     item\<lparr>imports_list := filter (isUnknown symbolsList) (imports_list item)\<rparr>"

text \<open>Every import record of every table of \<open>list\<close> has a table of \<open>symbolsList\<close> as its target.\<close>

definition allImportsKnown :: "ISymbols list \<Rightarrow> ISymbols list \<Rightarrow> bool" where
  "allImportsKnown symbolsList list =
     list_all (\<lambda>item. list_all (\<lambda>x. inSymbolsList symbolsList (filepath x)) (imports_list item)) list"


text \<open>What the expansion appends to an array of patterns.\<close>

definition expansion :: "string list \<Rightarrow> string list" where
  "expansion patterns = map (\<lambda>pattern. pattern @ ''/**'') (filter reGlobBaseName_test patterns)"

section \<open>Scenarios\<close>

definition noSymbols :: ISymbols where
  "noSymbols = \<lparr>document = [], variables = [], mixins = [], functions_list = [],
                 imports_list = [], ctime = None\<rparr>"

definition importOf :: "string \<Rightarrow> IImport" where
  "importOf fp = \<lparr>filepath = fp, dynamic = False, css = False\<rparr>"

definition tableOf :: "string \<Rightarrow> string list \<Rightarrow> nat \<Rightarrow> ISymbols" where
  "tableOf doc targets ct =
     noSymbols\<lparr>document := doc, imports_list := map importOf targets, ctime := Some ct\<rparr>"

definition emptyState :: state where
  "emptyState = \<lparr>arrays = Map.empty, cache = Map.empty, parsed = []\<rparr>"

definition settingsOf :: "int \<Rightarrow> bool \<Rightarrow> ISettings" where
  "settingsOf depth strict =
     \<lparr>scannerExclude = None, scannerDepth = 20, scanImportedFiles = True,
      scanImportedFilesDepth = depth, showErrors = strict\<rparr>"

text \<open>
  The matcher of the scenarios reports no match: in none of them does a pattern in force
  match an entry of the walker.
\<close>

definition matchNothing :: "string list \<Rightarrow> string list \<Rightarrow> string list" where
  "matchNothing strs patterns = []"

text \<open>An environment with nothing on disk.\<close>

definition envNothing :: env where
  "envNothing = \<lparr>readdirStreamStat = (\<lambda>r deep. []), statFile = (\<lambda>p. Inl ENOENT),
                  readFile = (\<lambda>p. Inl ENOENT), findSymbols = (\<lambda>uri txt. Inr noSymbols),
                  micromatch = matchNothing\<rparr>"

text \<open>Two project files that import each other.\<close>

definition mutualTables :: "ISymbols list" where
  "mutualTables = [tableOf ''/r/a.scss'' [''/r/b.scss''] 10, tableOf ''/r/b.scss'' [''/r/a.scss''] 10]"

text \<open>
  An environment from a list of walker events, a list of files on disk (path, change time
  and text, or no text for a file that cannot be read) and a list that gives the targets
  of the import records found in a text.
\<close>

definition diskEnv ::
    "walkEvent list \<Rightarrow> (string \<times> nat \<times> string option) list \<Rightarrow> (string \<times> string list) list \<Rightarrow> env" where
  "diskEnv events files importsOfText =
     \<lparr>readdirStreamStat = (\<lambda>r deep. events),
      statFile = (\<lambda>p. case map_of files p of None \<Rightarrow> Inl ENOENT | Some f \<Rightarrow> Inr (fst f)),
      readFile = (\<lambda>p. case map_of files p of
                         None \<Rightarrow> Inl ENOENT
                       | Some f \<Rightarrow> (case snd f of None \<Rightarrow> Inl EACCES | Some txt \<Rightarrow> Inr txt)),
      findSymbols = (\<lambda>uri txt. case map_of importsOfText txt of
                         None \<Rightarrow> Inr noSymbols
                       | Some targets \<Rightarrow> Inr (noSymbols\<lparr>imports_list := map importOf targets\<rparr>)),
      micromatch = matchNothing\<rparr>"

definition fileEvent :: "string \<Rightarrow> nat \<Rightarrow> walkEvent" where
  "fileEvent p ct = Found \<lparr>path = p, isFile = True, stat_ctime = ct\<rparr>"

text \<open>
  A root with \<open>a.scss\<close>, which imports \<open>b\<close>, and the partial \<open>_b.scss\<close>.
\<close>

definition envPartial :: env where
  \<open>envPartial = diskEnv
     [fileEvent ''/r/a.scss'' 10, fileEvent ''/r/_b.scss'' 20]
     [(''/r/a.scss'', 10, Some ''@import "b";''), (''/r/_b.scss'', 20, Some ''$b: 1;'')]
     [(''@import "b";'', [''/r/b.scss''])]\<close>

definition excludeState :: state where
  "excludeState = \<lparr>arrays = [0 \<mapsto> [''**/vendor'', ''*.tmp'', ''**/node_modules'']],
                    cache = Map.empty, parsed = []\<rparr>"

definition excludeSettings :: ISettings where
  "excludeSettings = (settingsOf 2 False)\<lparr>scannerExclude := Some 0\<rparr>"

text \<open>Outside the project: b imports c and c imports b.\<close>

definition envCycle :: env where
  \<open>envCycle = diskEnv
     [fileEvent ''/r/main.scss'' 10]
     [(''/r/main.scss'', 10, Some ''@import "../lib/b";''),
      (''/lib/b.scss'', 20, Some ''@import "c";''),
      (''/lib/c.scss'', 30, Some ''@import "b";'')]
     [(''@import "../lib/b";'', [''/lib/b.scss'']),
      (''@import "c";'', [''/lib/c.scss'']),
      (''@import "b";'', [''/lib/b.scss''])]\<close>

text \<open>
  The project pass of \<open>doScanner\<close> on its own: the settled promises of the \<open>file\<close> events,
  the walker's errors and the state when the stream ends.
\<close>

definition projectPass :: "env \<Rightarrow> string \<Rightarrow> ISettings \<Rightarrow> state \<Rightarrow> (error + ISymbols) list \<times> error list \<times> state" where
  "projectPass e rootDir settings st =
     scanEvents e settings (scannerExclude settings) (expandExclude settings st)
       (readdirStreamStat e rootDir (scannerDepth settings))"

text \<open>
  Two scans in a row, the second on the cache the first one left: the two results, each
  with the documents that were handed to the parser during that scan.
\<close>

definition parsedBy :: "state \<Rightarrow> state \<Rightarrow> string list" where
  "parsedBy st st' = drop (length (parsed st)) (parsed st')"

definition scanTwice ::
    "env \<Rightarrow> string \<Rightarrow> ISettings \<Rightarrow> state
      \<Rightarrow> ((error + ISymbols list) \<times> string list \<times> (error + ISymbols list) \<times> string list) option" where
  "scanTwice e rootDir settings st =
     (case doScanner e rootDir settings st of
        None \<Rightarrow> None
      | Some (r1, st1) \<Rightarrow>
          (case doScanner e rootDir settings st1 of
             None \<Rightarrow> None
           | Some (r2, st2) \<Rightarrow> Some (r1, parsedBy st st1, r2, parsedBy st1 st2)))"

text \<open>A root with \<open>a.scss\<close>, readable, and \<open>b.scss\<close>, which cannot be read.\<close>

definition envUnreadable :: env where
  \<open>envUnreadable = diskEnv
     [fileEvent ''/r/a.scss'' 10, fileEvent ''/r/b.scss'' 20]
     [(''/r/a.scss'', 10, Some ''$a: 1;''), (''/r/b.scss'', 20, None)]
     []\<close>

text \<open>
  A root with \<open>main.scss\<close> and the partial \<open>_mix.scss\<close>; \<open>main.scss\<close> imports \<open>vars\<close> from a
  directory outside the root, where only the partial \<open>_vars.scss\<close> exists.
\<close>

definition envLibrary :: env where
  \<open>envLibrary = diskEnv
     [fileEvent ''/r/main.scss'' 10, fileEvent ''/r/_mix.scss'' 20]
     [(''/r/main.scss'', 10, Some ''@import "../lib/vars";''),
      (''/r/_mix.scss'', 20, Some ''@mixin m {}''),
      (''/lib/_vars.scss'', 30, Some ''$v: 1;'')]
     [(''@import "../lib/vars";'', [''/lib/vars.scss''])]\<close>

text \<open>A directory with a file whose name is the underscore alone.\<close>

definition envUnderscore :: env where
  \<open>envUnderscore = diskEnv [] [(''/r/_'', 10, Some ''$u: 1;'')] []\<close>



text \<open>
  A chain of imports. The project file \<open>/r/main.scss\<close> imports \<open>chainPath 1\<close>; for
  \<open>1 \<le> i < n\<close> the file \<open>chainPath i\<close>, outside the root, imports \<open>chainPath (i + 1)\<close>; the
  file \<open>chainPath n\<close> imports nothing and no other file exists. The text of a file is its
  import statement, from which the environment's extraction reads the target.
  For \<open>i < n\<close>, \<open>chainTable i\<close> is the table of the \<open>i\<close>-th file of the chain, the project
  file being the file 0.
\<close>

definition chainPath :: "nat \<Rightarrow> string" where
  "chainPath i = ''/lib/c'' @ replicate i CHR ''x'' @ ''.scss''"

definition chainIndex :: "string \<Rightarrow> nat option" where
  "chainIndex p = (if p = chainPath (length p - 11) then Some (length p - 11) else None)"

definition chainTable :: "nat \<Rightarrow> ISymbols" where
  "chainTable i =
     (if i = 0 then tableOf ''/r/main.scss'' [chainPath 1] 10
      else tableOf (chainPath i) [chainPath (Suc i)] 10)"

definition chainEnv :: "nat \<Rightarrow> env" where
  "chainEnv n =
     \<lparr>readdirStreamStat = (\<lambda>r deep. [fileEvent ''/r/main.scss'' 10]),
      statFile = (\<lambda>p. if p = ''/r/main.scss'' then Inr 10
                       else (case chainIndex p of
                               None \<Rightarrow> Inl ENOENT
                             | Some i \<Rightarrow> if 1 \<le> i \<and> i \<le> n then Inr 10 else Inl ENOENT)),
      readFile = (\<lambda>p. if p = ''/r/main.scss'' then Inr (''@import '' @ chainPath 1)
                       else (case chainIndex p of
                               None \<Rightarrow> Inl ENOENT
                             | Some i \<Rightarrow> if 1 \<le> i \<and> i < n then Inr (''@import '' @ chainPath (Suc i))
                                         else if i = n then Inr []
                                         else Inl ENOENT)),
      findSymbols = (\<lambda>uri txt. if take 8 txt = ''@import ''
                                then Inr (noSymbols\<lparr>imports_list := [importOf (drop 8 txt)]\<rparr>)
                                else Inr noSymbols),
      micromatch = matchNothing\<rparr>"

section \<open>Candidates of a wave\<close>

lemma pushImport_append: "pushImport sl x acc = acc @ pushImport sl x []"
  by (simp add: pushImport_def)

lemma fold_pushImport:
  "fold (pushImport sl) xs acc = acc @ concat (map (\<lambda>x. pushImport sl x []) xs)"
proof (induction xs arbitrary: acc)
  case Nil
  show ?case by simp
next
  case (Cons x xs)
  have "fold (pushImport sl) (x # xs) acc = fold (pushImport sl) xs (pushImport sl x acc)"
    by simp
  also have "\<dots> = pushImport sl x acc @ concat (map (\<lambda>x. pushImport sl x []) xs)"
    by (rule Cons.IH)
  also have "\<dots> = acc @ pushImport sl x [] @ concat (map (\<lambda>x. pushImport sl x []) xs)"
    by (subst pushImport_append) simp
  finally show ?case by simp
qed

lemma fold_items:
  "fold (\<lambda>item acc. fold (pushImport sl) (imports_list item) acc) list acc0 =
     acc0 @ concat (map (\<lambda>item. concat (map (\<lambda>x. pushImport sl x []) (imports_list item))) list)"
  by (induction list arbitrary: acc0) (simp_all add: fold_pushImport)

lemma collectImportedFiles_concat:
  "collectImportedFiles sl list =
     concat (map (\<lambda>item. concat (map (\<lambda>x. pushImport sl x []) (imports_list item))) list)"
  by (simp add: collectImportedFiles_def fold_items)

lemma concat_map_filter_skip:
  "(\<And>x. x \<in> set xs \<Longrightarrow> \<not> P x \<Longrightarrow> f x = []) \<Longrightarrow>
   concat (map f (filter P xs)) = concat (map f xs)"
  by (induction xs) auto

lemma collect_withoutFlagged:
  "collectImportedFiles sl (map withoutFlagged list) = collectImportedFiles sl list"
proof -
  have h: "\<And>item. concat (map (\<lambda>x. pushImport sl x []) (filter isStatic (imports_list item)))
      = concat (map (\<lambda>x. pushImport sl x []) (imports_list item))"
    by (rule concat_map_filter_skip) (simp add: isStatic_def pushImport_def split: if_splits)
  show ?thesis
    by (simp add: collectImportedFiles_concat withoutFlagged_def comp_def h)
qed

lemma inSymbolsList_iff: "inSymbolsList sl fp = (fp \<in> set (map document sl))"
  by (induction sl) auto

lemma collect_withoutKnown:
  "collectImportedFiles sl (map (withoutKnown sl) list) = collectImportedFiles sl list"
proof -
  have h: "\<And>item. concat (map (\<lambda>x. pushImport sl x []) (filter (isUnknown sl) (imports_list item)))
      = concat (map (\<lambda>x. pushImport sl x []) (imports_list item))"
    by (rule concat_map_filter_skip)
       (simp add: isUnknown_def pushImport_def inSymbolsList_iff split: if_splits)
  show ?thesis
    by (simp add: collectImportedFiles_concat withoutKnown_def comp_def h)
qed

lemma collect_allImportsKnown:
  "allImportsKnown sl list \<Longrightarrow> collectImportedFiles sl list = []"
  by (auto simp: collectImportedFiles_concat allImportsKnown_def list_all_iff pushImport_def)

section \<open>The waves of the resolver\<close>

lemma recurse_stop:
  "list = [] \<or> int nesting = scanImportedFilesDepth settings \<Longrightarrow>
   recurse e settings symbolsList nesting accum list st = Some (accum, nesting, st)"
  by (subst recurse.simps) simp

lemma recurse_no_candidates:
  "collectImportedFiles symbolsList list = [] \<Longrightarrow>
   recurse e settings symbolsList nesting accum list st = Some (accum, nesting, st)"
  by (subst recurse.simps) simp

lemma recurse_step:
  "list \<noteq> [] \<Longrightarrow> int nesting \<noteq> scanImportedFilesDepth settings \<Longrightarrow>
   collectImportedFiles symbolsList list \<noteq> [] \<Longrightarrow>
   recurse e settings symbolsList nesting accum list st =
     recurse e settings symbolsList (Suc nesting)
       (accum @ filterBoolean (fst (resolveAll e settings st (collectImportedFiles symbolsList list))))
       (filterBoolean (fst (resolveAll e settings st (collectImportedFiles symbolsList list))))
       (snd (resolveAll e settings st (collectImportedFiles symbolsList list)))"
  by (subst recurse.simps) (simp add: Let_def)

lemma recurse_terminates:
  "int nesting \<le> scanImportedFilesDepth settings \<Longrightarrow>
   \<exists>accum' n st'. recurse e settings symbolsList nesting accum list st = Some (accum', n, st')
      \<and> nesting \<le> n \<and> int n \<le> scanImportedFilesDepth settings"
proof (induction "nat (scanImportedFilesDepth settings - int nesting)"
         arbitrary: nesting accum list st)
  case 0
  then have "int nesting = scanImportedFilesDepth settings" by simp
  then have "recurse e settings symbolsList nesting accum list st = Some (accum, nesting, st)"
    by (simp add: recurse_stop)
  with "0.prems" show ?case by simp
next
  case (Suc k)
  show ?case
  proof (cases "list = [] \<or> int nesting = scanImportedFilesDepth settings
                 \<or> collectImportedFiles symbolsList list = []")
    case True
    then have "recurse e settings symbolsList nesting accum list st = Some (accum, nesting, st)"
    proof (elim disjE)
      assume "list = []"
      then show ?thesis by (rule recurse_stop[OF disjI1])
    next
      assume "int nesting = scanImportedFilesDepth settings"
      then show ?thesis by (rule recurse_stop[OF disjI2])
    next
      assume "collectImportedFiles symbolsList list = []"
      then show ?thesis by (rule recurse_no_candidates)
    qed
    with Suc.prems show ?thesis by simp
  next
    case False
    then have ne: "list \<noteq> []" "int nesting \<noteq> scanImportedFilesDepth settings"
      "collectImportedFiles symbolsList list \<noteq> []" by simp_all
    from Suc.hyps(2) Suc.prems ne(2)
    have k: "k = nat (scanImportedFilesDepth settings - int (Suc nesting))"
      and le: "int (Suc nesting) \<le> scanImportedFilesDepth settings" by simp_all
    from Suc.hyps(1)[OF k le] obtain accum' n st' where
      r: "recurse e settings symbolsList (Suc nesting)
       (accum @ filterBoolean (fst (resolveAll e settings st (collectImportedFiles symbolsList list))))
       (filterBoolean (fst (resolveAll e settings st (collectImportedFiles symbolsList list))))
       (snd (resolveAll e settings st (collectImportedFiles symbolsList list))) = Some (accum', n, st')"
      and n: "Suc nesting \<le> n" "int n \<le> scanImportedFilesDepth settings" by blast
    have "recurse e settings symbolsList nesting accum list st = Some (accum', n, st')"
      by (simp only: recurse_step[OF ne] r)
    moreover from n have "nesting \<le> n" by simp
    ultimately show ?thesis using n(2) by blast
  qed
qed

text \<open>
  C5, as amended. For a depth that is a non-negative integer, \<open>scannerImportedFiles\<close>
  returns for every environment, every list of project tables and every state, files
  that import each other included; the wave counter it ends with is at most the depth.
  When every import of the project tables has a project table as its target (two project
  files that import each other), no candidate is enqueued at all: the result is empty
  after no wave.
\<close>

theorem scannerImportedFiles_terminates:
  assumes "0 \<le> scanImportedFilesDepth settings"
  shows "\<exists>accum n st'.
           scannerImportedFiles e symbolsList settings st = Some (accum, n, st')
           \<and> int n \<le> scanImportedFilesDepth settings
           \<and> (allImportsKnown symbolsList symbolsList \<longrightarrow> accum = [] \<and> n = 0 \<and> st' = st)"
proof -
  from assms have "int 0 \<le> scanImportedFilesDepth settings" by simp
  from recurse_terminates[OF this, of e symbolsList "[]" symbolsList st]
  obtain accum n st' where
    r: "recurse e settings symbolsList 0 [] symbolsList st = Some (accum, n, st')"
    and n: "int n \<le> scanImportedFilesDepth settings" by blast
  have "allImportsKnown symbolsList symbolsList \<longrightarrow> accum = [] \<and> n = 0 \<and> st' = st"
  proof
    assume "allImportsKnown symbolsList symbolsList"
    then have "collectImportedFiles symbolsList symbolsList = []"
      by (rule collect_allImportsKnown)
    then have "recurse e settings symbolsList 0 [] symbolsList st = Some ([], 0, st)"
      by (rule recurse_no_candidates)
    with r show "accum = [] \<and> n = 0 \<and> st' = st" by simp
  qed
  with r n show ?thesis by (simp add: scannerImportedFiles_def)
qed

theorem scannerImportedFiles_terminates_witness:
  "0 \<le> scanImportedFilesDepth (settingsOf 3 False)
   \<and> allImportsKnown mutualTables mutualTables
   \<and> scannerImportedFiles envNothing mutualTables (settingsOf 3 False) emptyState
       = Some ([], 0, emptyState)"
proof -
  have d: "0 \<le> scanImportedFilesDepth (settingsOf 3 False)"
    by (simp add: settingsOf_def)
  have k: "allImportsKnown mutualTables mutualTables"
    by (simp add: allImportsKnown_def mutualTables_def tableOf_def importOf_def noSymbols_def)
  from scannerImportedFiles_terminates[OF d, of envNothing mutualTables emptyState] k
  have "scannerImportedFiles envNothing mutualTables (settingsOf 3 False) emptyState
       = Some ([], 0, emptyState)" by auto
  with d k show ?thesis by simp
qed

text \<open>
  C5 as stated fails where it says that the second occurrence of a known file is
  excluded. \<open>b.scss\<close> and \<open>c.scss\<close>, outside the project, import each other. With depth 4
  each of them is resolved twice, and the resolution ends because the counter has
  reached the depth, not because a file was recognised.
\<close>

theorem cycle_ends_at_depth_only:
  "map_option (\<lambda>r. (fst r, fst (snd r)))
     (scannerImportedFiles envCycle [tableOf ''/r/main.scss'' [''/lib/b.scss''] 10]
        (settingsOf 4 False) emptyState)
   = Some ([tableOf ''/lib/b.scss'' [''/lib/c.scss''] 20,
            tableOf ''/lib/c.scss'' [''/lib/b.scss''] 30,
            tableOf ''/lib/b.scss'' [''/lib/c.scss''] 20,
            tableOf ''/lib/c.scss'' [''/lib/b.scss''] 30], 4)"
  by code_simp

text \<open>
  C9. In every wave, whatever the counter, the accumulated result and the state, the
  import records flagged \<open>dynamic\<close> or \<open>css\<close> contribute no candidate: the candidates, and
  with them the whole resolution, are those of the frontier without these records,
  whatever is on disk.
\<close>

theorem flagged_imports_never_followed:
  "collectImportedFiles symbolsList (map withoutFlagged list) = collectImportedFiles symbolsList list
   \<and> recurse e settings symbolsList nesting accum (map withoutFlagged list) st
       = recurse e settings symbolsList nesting accum list st"
proof
  show "collectImportedFiles symbolsList (map withoutFlagged list)
        = collectImportedFiles symbolsList list"
    by (rule collect_withoutFlagged)
  show "recurse e settings symbolsList nesting accum (map withoutFlagged list) st
       = recurse e settings symbolsList nesting accum list st"
    by (subst (1 2) recurse.simps) (simp add: collect_withoutFlagged)
qed

section \<open>The expansion of the exclusion patterns\<close>

lemma push_arrays: "arrays st a = Some xs \<Longrightarrow> arrays (push a v st) = (arrays st)(a \<mapsto> xs @ [v])"
  by (simp add: push_def)

lemma push_other: "cache (push a v st) = cache st \<and> parsed (push a v st) = parsed st"
  by (simp add: push_def split: option.splits)

lemma fold_push:
  "arrays st a = Some xs \<Longrightarrow>
   arrays (fold (\<lambda>pattern s. if reGlobBaseName_test pattern
                     then (case Some a of None \<Rightarrow> s | Some a \<Rightarrow> push a (pattern @ ''/**'') s)
                     else s) ps st) = (arrays st)(a \<mapsto> xs @ expansion ps)"
proof (induction ps arbitrary: st xs)
  case Nil
  then show ?case by (auto simp: expansion_def)
next
  case (Cons p ps)
  show ?case
  proof (cases "reGlobBaseName_test p")
    case True
    have "arrays (push a (p @ ''/**'') st) a = Some (xs @ [p @ ''/**''])"
      using Cons.prems by (simp add: push_arrays)
    from Cons.IH[OF this] True Cons.prems show ?thesis
      by (simp add: push_arrays expansion_def fun_eq_iff)
  next
    case False
    with Cons.IH[OF Cons.prems] show ?thesis by (simp add: expansion_def)
  qed
qed

lemma fold_push_other:
  "cache (fold (\<lambda>pattern s. if reGlobBaseName_test pattern
                     then (case r of None \<Rightarrow> s | Some a \<Rightarrow> push a (pattern @ ''/**'') s)
                     else s) ps st) = cache st
   \<and> parsed (fold (\<lambda>pattern s. if reGlobBaseName_test pattern
                     then (case r of None \<Rightarrow> s | Some a \<Rightarrow> push a (pattern @ ''/**'') s)
                     else s) ps st) = parsed st"
  by (induction ps arbitrary: st) (auto simp: push_other split: option.splits)

lemma expandExclude_arrays:
  "scannerExclude settings = Some a \<Longrightarrow> arrays st a = Some patterns \<Longrightarrow>
   arrays (expandExclude settings st) = (arrays st)(a \<mapsto> patterns @ expansion patterns)"
  by (simp add: expandExclude_def deref_def fold_push)

lemma expandExclude_other:
  "cache (expandExclude settings st) = cache st \<and> parsed (expandExclude settings st) = parsed st"
  by (simp add: expandExclude_def fold_push_other split: option.splits)

lemma expanded_not_reGlobBaseName: "\<not> reGlobBaseName_test (p @ ''/**'')"
proof
  assume t: "reGlobBaseName_test (p @ ''/**'')"
  then obtain r where p: "p @ ''/**'' = CHR ''*'' # CHR ''*'' # CHR ''/'' # r"
    and d: "dropWhile nameChar r = [] \<or> dropWhile nameChar r = ''/''"
    by (auto simp: reGlobBaseName_test_def split: list.splits if_splits)
  have star: "\<not> nameChar (CHR ''*'')" by (simp add: nameChar_def)
  from p have "last (CHR ''*'' # CHR ''*'' # CHR ''/'' # r) = CHR ''*''"
    by (metis last_appendR last.simps list.distinct(1))
  with p have "r \<noteq> [] \<and> last r = CHR ''*''" by (cases r) (auto split: if_splits)
  then have r: "r \<noteq> []" "last r = CHR ''*''" by simp_all
  from d show False
  proof
    assume "dropWhile nameChar r = []"
    then have "\<forall>x\<in>set r. nameChar x" by (simp add: dropWhile_eq_Nil_conv)
    moreover from r have "CHR ''*'' \<in> set r" by (metis last_in_set)
    ultimately show False using star by blast
  next
    assume "dropWhile nameChar r = ''/''"
    then have "r = takeWhile nameChar r @ ''/''" by (metis takeWhile_dropWhile_id)
    then have "last r = CHR ''/''" by (metis last_snoc append_Cons append_Nil)
    with r show False by simp
  qed
qed

lemma filter_expansion: "filter reGlobBaseName_test (expansion ps) = []"
  by (induction ps) (auto simp: expansion_def expanded_not_reGlobBaseName)

lemma expansion_append: "expansion (ps @ expansion ps) = expansion ps"
  using filter_expansion[of ps] by (simp add: expansion_def)

section \<open>The arrays are touched by the expansion only\<close>

lemma makeSymbolsForDocument_arrays:
  "arrays (snd (makeSymbolsForDocument e st entry settings)) = arrays st"
  by (simp add: makeSymbolsForDocument_def Let_def split: sum.splits)

lemma resolveImported_arrays:
  "arrays (snd (resolveImported e settings st fp)) = arrays st"
proof -
  have "\<And>entry. arrays (snd (makeSymbolsForDocument e st entry settings)) = arrays st"
    by (rule makeSymbolsForDocument_arrays)
  then show ?thesis
    by (auto simp: resolveImported_def Let_def split: sum.splits option.splits prod.splits)
       (metis snd_conv)+
qed

lemma resolveAll_arrays:
  "arrays (snd (resolveAll e settings st fps)) = arrays st"
  by (induction fps arbitrary: st) (simp_all add: Let_def resolveImported_arrays)

lemma recurse_arrays:
  assumes "recurse e settings symbolsList nesting accum list st = Some r"
  shows "arrays (snd (snd r)) = arrays st"
proof (rule recurse.raw_induct[where P = "\<lambda>e settings symbolsList nesting accum list st r.
          arrays (snd (snd r)) = arrays st", OF _ assms])
  fix recurse' e settings symbolsList nesting accum list st r
  assume IH: "\<And>settings symbolsList nesting accum list st b y.
        recurse' settings symbolsList nesting accum list st b = Some y \<Longrightarrow>
        arrays (snd (snd y)) = arrays b"
    and body: "(if list = [] \<or> int nesting = scanImportedFilesDepth settings
      then Some (accum, nesting, st)
      else let importedFiles = collectImportedFiles symbolsList list
           in if importedFiles = [] then Some (accum, nesting, st)
              else let r = resolveAll e settings st importedFiles;
                       resultList = filterBoolean (fst r)
                   in recurse' e settings symbolsList (nesting + 1)
                       (accum @ resultList) resultList (snd r)) = Some r"
  show "arrays (snd (snd r)) = arrays st"
  proof (cases "list = [] \<or> int nesting = scanImportedFilesDepth settings
                 \<or> collectImportedFiles symbolsList list = []")
    case True
    with body show ?thesis by (auto simp: Let_def split: if_splits)
  next
    case False
    with body have "recurse' e settings symbolsList (nesting + 1)
       (accum @ filterBoolean (fst (resolveAll e settings st (collectImportedFiles symbolsList list))))
       (filterBoolean (fst (resolveAll e settings st (collectImportedFiles symbolsList list))))
       (snd (resolveAll e settings st (collectImportedFiles symbolsList list))) = Some r"
      by (simp add: Let_def)
    from IH[OF this] show ?thesis by (simp add: resolveAll_arrays)
  qed
qed

lemma onFile_arrays: "arrays (snd (onFile e settings st stat)) = arrays st"
  by (simp add: onFile_def Let_def makeSymbolsForDocument_arrays split: option.splits)

lemma scanEvents_arrays:
  "arrays (snd (snd (scanEvents e settings x st evs))) = arrays st"
  by (induction e settings x st evs rule: scanEvents.induct)
     (simp_all add: Let_def onFile_arrays)

lemma doScanner_arrays:
  assumes "doScanner e rootDir settings st = Some (r, st')"
  shows "arrays st' = arrays (expandExclude settings st)"
proof -
  let ?st2 = "snd (snd (scanEvents e settings (scannerExclude settings) (expandExclude settings st)
                (readdirStreamStat e rootDir (scannerDepth settings))))"
  have st2: "arrays ?st2 = arrays (expandExclude settings st)" by (rule scanEvents_arrays)
  from assms have "st' = ?st2 \<or> (\<exists>ps acc n. scannerImportedFiles e ps settings ?st2 = Some (acc, n, st'))"
    by (auto simp: doScanner_def Let_def split: sum.splits if_splits option.splits)
  then show ?thesis
  proof
    assume "st' = ?st2" with st2 show ?thesis by simp
  next
    assume "\<exists>ps acc n. scannerImportedFiles e ps settings ?st2 = Some (acc, n, st')"
    then obtain ps acc n where "recurse e settings ps 0 [] ps ?st2 = Some (acc, n, st')"
      by (auto simp: scannerImportedFiles_def)
    from recurse_arrays[OF this] st2 show ?thesis by simp
  qed
qed


lemma doScanner_returns:
  assumes "0 \<le> scanImportedFilesDepth settings"
  shows "\<exists>r st'. doScanner e rootDir settings st = Some (r, st')"
proof -
  from assms have "\<And>ps st2. \<exists>acc n st3. scannerImportedFiles e ps settings st2 = Some (acc, n, st3)"
    using recurse_terminates[of 0 settings e] by (simp add: scannerImportedFiles_def) blast
  then show ?thesis
    by (auto simp: doScanner_def Let_def split: sum.splits option.splits) (metis option.distinct(1))
qed

text \<open>
  C10. \<open>doScanner\<close> changes the array that \<open>settings.scannerExclude\<close> refers to: after a
  call it holds the patterns it held before, followed by \<open>pattern/**\<close> for each of them
  that matches \<open>reGlobBaseName\<close>, in order. The appended patterns do not match, so a
  second call with the same settings appends the same patterns once more: the array
  grows by one entry for each matching pattern at every call.
\<close>

theorem doScanner_grows_scannerExclude:
  assumes "scannerExclude settings = Some a" and "arrays st a = Some patterns"
    and "doScanner e1 rootDir1 settings st = Some (r1, st1)"
    and "doScanner e2 rootDir2 settings st1 = Some (r2, st2)"
  shows "deref st1 (scannerExclude settings) = Some (patterns @ expansion patterns)
         \<and> deref st2 (scannerExclude settings) = Some (patterns @ expansion patterns @ expansion patterns)
         \<and> length (expansion patterns) = length (filter reGlobBaseName_test patterns)"
proof -
  have 1: "arrays st1 a = Some (patterns @ expansion patterns)"
    using doScanner_arrays[OF assms(3)] expandExclude_arrays[OF assms(1,2)] by simp
  have "arrays st2 a = Some ((patterns @ expansion patterns) @ expansion (patterns @ expansion patterns))"
    using doScanner_arrays[OF assms(4)] expandExclude_arrays[OF assms(1) 1] by simp
  then have 2: "arrays st2 a = Some (patterns @ expansion patterns @ expansion patterns)"
    by (simp add: expansion_append)
  from 1 2 assms(1) show ?thesis by (simp add: deref_def expansion_def)
qed

theorem doScanner_grows_scannerExclude_witness:
  "scannerExclude excludeSettings = Some 0
   \<and> arrays excludeState 0 = Some [''**/vendor'', ''*.tmp'', ''**/node_modules'']
   \<and> (\<exists>r1 st1 r2 st2.
         doScanner envPartial ''/r'' excludeSettings excludeState = Some (r1, st1)
         \<and> doScanner envPartial ''/r'' excludeSettings st1 = Some (r2, st2)
         \<and> deref st1 (Some 0) = Some [''**/vendor'', ''*.tmp'', ''**/node_modules'',
               ''**/vendor/**'', ''**/node_modules/**'']
         \<and> deref st2 (Some 0) = Some [''**/vendor'', ''*.tmp'', ''**/node_modules'',
               ''**/vendor/**'', ''**/node_modules/**'', ''**/vendor/**'', ''**/node_modules/**''])"
proof -
  have s: "scannerExclude excludeSettings = Some 0"
    by (simp add: excludeSettings_def)
  have a: "arrays excludeState 0 = Some [''**/vendor'', ''*.tmp'', ''**/node_modules'']"
    by (simp add: excludeState_def)
  have d: "0 \<le> scanImportedFilesDepth excludeSettings"
    by (simp add: excludeSettings_def settingsOf_def)
  obtain r1 st1 where r1: "doScanner envPartial ''/r'' excludeSettings excludeState = Some (r1, st1)"
    using doScanner_returns[OF d] by blast
  obtain r2 st2 where r2: "doScanner envPartial ''/r'' excludeSettings st1 = Some (r2, st2)"
    using doScanner_returns[OF d] by blast
  have x: "expansion [''**/vendor'', ''*.tmp'', ''**/node_modules'']
            = [''**/vendor/**'', ''**/node_modules/**'']"
    by (simp add: expansion_def reGlobBaseName_test_def nameChar_def)
  from doScanner_grows_scannerExclude[OF s a r1 r2] s a x r1 r2 show ?thesis
    by auto
qed


text \<open>
  C2, as amended. An import record whose target path is the document of a table of the
  project scan (\<open>symbolsList\<close>, which never grows) adds nothing to the candidates,
  whatever has been enqueued before it. So in every wave, whatever the counter, the
  accumulated result and the state, the candidates, and with them the whole resolution,
  are those of the frontier without the records whose target is such a document.
\<close>

theorem known_tables_skipped:
  "(\<forall>x importedFiles.
      filepath x \<in> set (map document symbolsList) \<longrightarrow>
      pushImport symbolsList x importedFiles = importedFiles)
   \<and> collectImportedFiles symbolsList (map (withoutKnown symbolsList) list)
       = collectImportedFiles symbolsList list
   \<and> recurse e settings symbolsList nesting accum (map (withoutKnown symbolsList) list) st
       = recurse e settings symbolsList nesting accum list st"
proof (intro conjI allI impI)
  fix x :: IImport and importedFiles :: "string list"
  assume "filepath x \<in> set (map document symbolsList)"
  then have "inSymbolsList symbolsList (filepath x)" by (simp only: inSymbolsList_iff)
  then show "pushImport symbolsList x importedFiles = importedFiles"
    by (simp add: pushImport_def)
next
  show "collectImportedFiles symbolsList (map (withoutKnown symbolsList) list)
        = collectImportedFiles symbolsList list"
    by (rule collect_withoutKnown)
next
  show "recurse e settings symbolsList nesting accum (map (withoutKnown symbolsList) list) st
       = recurse e settings symbolsList nesting accum list st"
    by (subst (1 2) recurse.simps) (simp add: collect_withoutKnown)
qed

theorem known_tables_skipped_witness:
  "filepath (importOf ''/r/b.scss'') \<in> set (map document mutualTables)
   \<and> pushImport mutualTables (importOf ''/r/b.scss'') [''/lib/c.scss''] = [''/lib/c.scss'']
   \<and> map (withoutKnown mutualTables) mutualTables
       = [tableOf ''/r/a.scss'' [] 10, tableOf ''/r/b.scss'' [] 10]
   \<and> collectImportedFiles mutualTables mutualTables = []"
proof -
  have m: "filepath (importOf ''/r/b.scss'') \<in> set (map document mutualTables)"
    by (simp add: importOf_def mutualTables_def tableOf_def)
  have w: "map (withoutKnown mutualTables) mutualTables
       = [tableOf ''/r/a.scss'' [] 10, tableOf ''/r/b.scss'' [] 10]"
    by (simp add: withoutKnown_def isUnknown_def mutualTables_def tableOf_def importOf_def
        noSymbols_def)
  have n: "collectImportedFiles mutualTables [tableOf ''/r/a.scss'' [] 10, tableOf ''/r/b.scss'' [] 10]
       = []"
    by (simp add: collectImportedFiles_def tableOf_def)
  note k = known_tables_skipped[of mutualTables mutualTables envNothing "settingsOf 3 False" 0 "[]"
      emptyState]
  from k m have "pushImport mutualTables (importOf ''/r/b.scss'') [''/lib/c.scss''] = [''/lib/c.scss'']"
    by blast
  moreover from k have "collectImportedFiles mutualTables mutualTables
      = collectImportedFiles mutualTables (map (withoutKnown mutualTables) mutualTables)"
    by simp
  ultimately show ?thesis using m w n by simp
qed

text \<open>
  C2 as stated fails. The project has \<open>main.scss\<close>, which imports \<open>b.scss\<close> outside the
  root; \<open>b.scss\<close> imports \<open>c.scss\<close> and \<open>c.scss\<close> imports \<open>b.scss\<close>. With depth 3 the table
  of \<open>b.scss\<close> is returned by the first wave and again by the third: the frontier of the
  third wave is the table of \<open>c.scss\<close>, and its import of \<open>b.scss\<close> is enqueued although a
  table of \<open>b.scss\<close> was produced two waves before.
\<close>

theorem known_set_does_not_grow:
  "map_option fst (doScanner envCycle ''/r'' (settingsOf 3 False) emptyState)
     = Some (Inr [tableOf ''/r/main.scss'' [''/lib/b.scss''] 10,
                  tableOf ''/lib/b.scss'' [''/lib/c.scss''] 20,
                  tableOf ''/lib/c.scss'' [''/lib/b.scss''] 30,
                  tableOf ''/lib/b.scss'' [''/lib/c.scss''] 20])
   \<and> collectImportedFiles [tableOf ''/r/main.scss'' [''/lib/b.scss''] 10]
         [tableOf ''/lib/c.scss'' [''/lib/b.scss''] 30]
       = [''/lib/b.scss'', ''/lib/_b.scss'']"
  by code_simp

section \<open>A failed file in the project pass\<close>

lemma promiseAll_Inl: "Inl err \<in> set ps \<Longrightarrow> \<exists>err'. promiseAll ps = Inl err'"
proof (induction ps)
  case Nil
  then show ?case by simp
next
  case (Cons p ps)
  show ?case
  proof (cases p)
    case (Inl a)
    then show ?thesis by simp
  next
    case (Inr b)
    with Cons.prems have "Inl err \<in> set ps" by auto
    from Cons.IH[OF this] Inr show ?thesis by auto
  qed
qed

text \<open>
  What one rejected promise does to the project pass. With \<open>showErrors\<close> off, when the
  promise of some file is rejected (its read or its parse failed), \<open>Promise.all\<close> rejects
  before \<open>projectSymbols\<close> is assigned, and \<open>doScanner\<close> resolves with the list as it was
  initialised: no table of the project pass is returned and the imports are not
  resolved. The state is the one the project pass left, so the tables that were
  extracted are in the cache.
\<close>

lemma failed_file_empties_result:
  assumes "showErrors settings = False"
    and "Inl err \<in> set (fst (projectPass e rootDir settings st))"
  shows "doScanner e rootDir settings st = Some (Inr [], snd (snd (projectPass e rootDir settings st)))"
proof -
  from promiseAll_Inl[OF assms(2)] obtain err' where
    "promiseAll (fst (projectPass e rootDir settings st)) = Inl err'" by blast
  with assms(1) show ?thesis
    by (simp add: doScanner_def projectPass_def Let_def ifShown_def settle_def)
qed

lemma unreadable_projectPass: "fst (projectPass envUnreadable ''/r'' (settingsOf 1 False) emptyState)
           = [Inr (tableOf ''/r/a.scss'' [] 10), Inl EACCES]"
  by code_simp

lemma unreadable_cache: "cache (snd (snd (projectPass envUnreadable ''/r'' (settingsOf 1 False) emptyState))) ''/r/a.scss''
           = Some (tableOf ''/r/a.scss'' [] 10)"
  by code_simp

lemma failed_file_empties_result_at_unreadable:
  "showErrors (settingsOf 1 False) = False
   \<and> Inl EACCES \<in> set (fst (projectPass envUnreadable ''/r'' (settingsOf 1 False) emptyState))
   \<and> map_option fst (doScanner envUnreadable ''/r'' (settingsOf 1 False) emptyState) = Some (Inr [])
   \<and> cache (snd (snd (projectPass envUnreadable ''/r'' (settingsOf 1 False) emptyState))) ''/r/a.scss''
       = Some (tableOf ''/r/a.scss'' [] 10)"
proof -
  have s: "showErrors (settingsOf 1 False) = False" by (simp add: settingsOf_def)
  have i: "Inl EACCES \<in> set (fst (projectPass envUnreadable ''/r'' (settingsOf 1 False) emptyState))"
    by (simp add: unreadable_projectPass)
  from failed_file_empties_result[OF s i] s i unreadable_cache show ?thesis by simp
qed

text \<open>
  C1. The scan finds \<open>a.scss\<close>, which reads and parses, and \<open>b.scss\<close>, whose read fails;
  \<open>showErrors\<close> is off. \<open>doScanner\<close> resolves, as the claim says, but with no table at all
  instead of the table of \<open>a.scss\<close> alone, although \<open>a.scss\<close> was read and parsed: the
  failed file takes the tables of the other files with it.
\<close>

theorem best_effort_scan_returns_nothing:
  "map_option fst (doScanner envUnreadable ''/r'' (settingsOf 1 False) emptyState) = Some (Inr [])
   \<and> map_option (parsed \<circ> snd) (doScanner envUnreadable ''/r'' (settingsOf 1 False) emptyState)
       = Some [''/r/a.scss'']"
  by code_simp

section \<open>Partials and the cache\<close>

text \<open>
  Where the cache holds, under the very path of a file, a table whose time is not older
  than the file's, both passes return that table and leave the state as it is: nothing
  is parsed.
\<close>

lemma fresh_table_reused:
  assumes "cache st p = Some t" and "ctime t = Some c" and "ct \<le> c"
  shows "onFile e settings st \<lparr>path = p, isFile = f, stat_ctime = ct\<rparr> = (Inr t, st)"
    and "statFile e p = Inr ct \<Longrightarrow> resolveImported e settings st p = (Some t, st)"
  using assms
  by (simp_all add: onFile_def resolveImported_def freshCached_def makeEntryFile_def Let_def)

text \<open>
  C3. The root holds \<open>a.scss\<close>, which imports \<open>b\<close>, and \<open>_b.scss\<close>. The first scan returns
  the tables of \<open>a.scss\<close> and \<open>b.scss\<close> and parses both files. The second scan, with nothing
  changed on disk, returns the same tables; \<open>a.scss\<close> comes from the cache, but the
  partial is parsed again: its table was stored under \<open>/r/b.scss\<close> and is looked up under
  \<open>/r/_b.scss\<close>.
\<close>

theorem partial_parsed_again:
  "scanTwice envPartial ''/r'' (settingsOf 1 False) emptyState
     = Some (Inr [tableOf ''/r/a.scss'' [''/r/b.scss''] 10, tableOf ''/r/b.scss'' [] 20],
             [''/r/a.scss'', ''/r/b.scss''],
             Inr [tableOf ''/r/a.scss'' [''/r/b.scss''] 10, tableOf ''/r/b.scss'' [] 20],
             [''/r/b.scss''])"
  by code_simp

text \<open>
  C4. Nothing changes on disk between two scans. \<open>main.scss\<close> is taken from the cache in
  the second scan. The partial \<open>_mix.scss\<close> of the project pass and the partial
  \<open>_vars.scss\<close> reached by import resolution are parsed again, although the cache holds
  their tables with an unchanged time.
\<close>

theorem unchanged_partials_parsed_again:
  "scanTwice envLibrary ''/r'' (settingsOf 1 False) emptyState
     = Some (Inr [tableOf ''/r/main.scss'' [''/lib/vars.scss''] 10, tableOf ''/r/mix.scss'' [] 20,
                  tableOf ''/lib/vars.scss'' [] 30],
             [''/r/main.scss'', ''/r/mix.scss'', ''/lib/vars.scss''],
             Inr [tableOf ''/r/main.scss'' [''/lib/vars.scss''] 10, tableOf ''/r/mix.scss'' [] 20,
                  tableOf ''/lib/vars.scss'' [] 30],
             [''/r/mix.scss'', ''/lib/vars.scss''])"
  by code_simp

section \<open>Parsing and formatting paths\<close>

lemma dropWhile_isSep_rev:
  "b \<noteq> [] \<Longrightarrow> CHR ''/'' \<notin> set b \<Longrightarrow> dropWhile isSep (rev b @ r) = rev b @ r"
proof -
  assume b: "b \<noteq> []" "CHR ''/'' \<notin> set b"
  then obtain c cs where r: "rev b = c # cs" by (cases "rev b") auto
  with b have "c \<noteq> CHR ''/''" by (metis list.set_intros(1) set_rev)
  with r show ?thesis by (simp add: isSep_def)
qed

lemma takeWhile_notSep_rev:
  "CHR ''/'' \<notin> set b \<Longrightarrow> takeWhile notSep (rev b @ CHR ''/'' # r) = rev b"
  by (induction b arbitrary: r rule: rev_induct) (auto simp: notSep_def takeWhile_append1 takeWhile_append2)

lemma dropWhile_notSep_rev:
  "CHR ''/'' \<notin> set b \<Longrightarrow> dropWhile notSep (rev b @ CHR ''/'' # r) = CHR ''/'' # r"
  by (induction b arbitrary: r rule: rev_induct) (auto simp: notSep_def)

lemma takeWhile_notSep_all:
  "CHR ''/'' \<notin> set b \<Longrightarrow> takeWhile notSep (rev b) = rev b"
  by (induction b rule: rev_induct) (auto simp: notSep_def)

lemma dropWhile_notSep_all:
  "CHR ''/'' \<notin> set b \<Longrightarrow> dropWhile notSep (rev b) = []"
  by (induction b rule: rev_induct) (auto simp: notSep_def)

lemma path_parse_parts:
  assumes "p \<noteq> []" and "dropWhile isSep (rev (if hd p = CHR ''/'' then tl p else p)) = t"
    and "takeWhile notSep t = tb" and "dropWhile notSep t = tf"
  shows "base (path_parse p) = rev tb"
    and "dir (path_parse p) =
           (if tf = [] then (if hd p = CHR ''/'' then ''/'' else [])
            else if hd p = CHR ''/'' then CHR ''/'' # rev (tl tf)
            else rev (tl tf))"
    and "root (path_parse p) = (if hd p = CHR ''/'' then ''/'' else [])"
proof -
  from assms(2,3,4)
  have e: "tb = takeWhile notSep (dropWhile isSep (rev (if hd p = CHR ''/'' then tl p else p)))"
    "tf = dropWhile notSep (dropWhile isSep (rev (if hd p = CHR ''/'' then tl p else p)))"
    by auto
  show "base (path_parse p) = rev tb"
    unfolding e using assms(1) by (simp add: path_parse_def Let_def)
  show "dir (path_parse p) =
           (if tf = [] then (if hd p = CHR ''/'' then ''/'' else [])
            else if hd p = CHR ''/'' then CHR ''/'' # rev (tl tf)
            else rev (tl tf))"
    unfolding e using assms(1) by (simp add: path_parse_def Let_def)
  show "root (path_parse p) = (if hd p = CHR ''/'' then ''/'' else [])"
    using assms(1) by (simp add: path_parse_def Let_def)
qed

text \<open>A path with a directory part: \<open>q/b\<close>.\<close>

lemma path_parse_in_dir:
  assumes "b \<noteq> []" and "CHR ''/'' \<notin> set b"
  shows "base (path_parse (q @ CHR ''/'' # b)) = b"
    and "dir (path_parse (q @ CHR ''/'' # b)) = (if q = [] then ''/'' else q)"
    and "root (path_parse (q @ CHR ''/'' # b)) = (if q = [] \<or> hd q = CHR ''/'' then ''/'' else [])"
proof -
  let ?p = "q @ CHR ''/'' # b"
  have ne: "?p \<noteq> []" by simp
  have "base (path_parse ?p) = b
        \<and> dir (path_parse ?p) = (if q = [] then ''/'' else q)
        \<and> root (path_parse ?p) = (if q = [] \<or> hd q = CHR ''/'' then ''/'' else [])"
  proof (cases q)
    case Nil
    have t: "dropWhile isSep (rev (if hd ?p = CHR ''/'' then tl ?p else ?p)) = rev b"
      using dropWhile_isSep_rev[OF assms, of "[]"] Nil by simp
    show ?thesis
      using path_parse_parts[OF ne t takeWhile_notSep_all[OF assms(2)] dropWhile_notSep_all[OF assms(2)]] Nil
      by simp
  next
    case (Cons c cs)
    show ?thesis
    proof (cases "c = CHR ''/''")
      case True
      have t: "dropWhile isSep (rev (if hd ?p = CHR ''/'' then tl ?p else ?p)) = rev b @ CHR ''/'' # rev cs"
        using dropWhile_isSep_rev[OF assms, of "CHR ''/'' # rev cs"] Cons True by simp
      show ?thesis
        using path_parse_parts[OF ne t takeWhile_notSep_rev[OF assms(2)] dropWhile_notSep_rev[OF assms(2)]]
          Cons True by simp
    next
      case False
      have t: "dropWhile isSep (rev (if hd ?p = CHR ''/'' then tl ?p else ?p))
                 = rev b @ CHR ''/'' # rev (c # cs)"
        using dropWhile_isSep_rev[OF assms, of "CHR ''/'' # rev (c # cs)"] Cons False by simp
      show ?thesis
        using path_parse_parts[OF ne t takeWhile_notSep_rev[OF assms(2)] dropWhile_notSep_rev[OF assms(2)]]
          Cons False by simp
    qed
  qed
  then show "base (path_parse (q @ CHR ''/'' # b)) = b"
    and "dir (path_parse (q @ CHR ''/'' # b)) = (if q = [] then ''/'' else q)"
    and "root (path_parse (q @ CHR ''/'' # b)) = (if q = [] \<or> hd q = CHR ''/'' then ''/'' else [])"
    by simp_all
qed


lemma path_format_in_dir:
  assumes "b \<noteq> []" and "CHR ''/'' \<notin> set b" and "b' \<noteq> []"
  shows "path_format ((path_parse (q @ CHR ''/'' # b))\<lparr>base := b'\<rparr>)
           = (if q = ''/'' then CHR ''/'' # b' else q @ CHR ''/'' # b')"
proof -
  note pp = path_parse_in_dir[OF assms(1,2), of q]
  show ?thesis
  proof (cases "q = []")
    case True
    with pp assms(3) show ?thesis by (simp add: path_format_def Let_def)
  next
    case False
    show ?thesis
    proof (cases "q = ''/''")
      case True
      with pp assms(3) show ?thesis by (simp add: path_format_def Let_def)
    next
      case q: False
      from False q have "q \<noteq> (if hd q = CHR ''/'' then ''/'' else [])" by auto
      with pp assms(3) False q show ?thesis by (simp add: path_format_def Let_def)
    qed
  qed
qed


lemma partialPath_in_dir:
  assumes "b \<noteq> []" and "CHR ''/'' \<notin> set b"
  shows "partialPath (q @ CHR ''/'' # b) = (if q = ''/'' then ''/_'' @ b else q @ ''/_'' @ b)"
  using assms by (simp add: partialPath_def Let_def path_format_in_dir path_parse_in_dir)


section \<open>The document of a partial\<close>


text \<open>
  A file that passes the filter has a path that ends in \<open>.scss\<close>; when its basename
  starts with an underscore, more than the underscore is there.
\<close>

lemma filtered_file_has_rest:
  assumes "scannerFilter e stat excludePatterns" and "isFile stat"
    and "path stat = pre @ CHR ''_'' # b"
  shows "b \<noteq> []"
proof
  assume "b = []"
  with assms(3) have p: "path stat = pre @ ''_''" by simp
  from assms(1,2) have "sliceLast 5 (path stat) = ''.scss''"
    by (simp add: scannerFilter_def split: option.splits if_splits)
  with p have "drop (length pre + 1 - 5) pre @ ''_'' = ''.scss''"
    by (simp add: sliceLast_def)
  then have "last (drop (length pre + 1 - 5) pre @ ''_'') = last ''.scss''" by (rule arg_cong)
  then show False by (simp only: last_snoc last.simps) simp
qed




text \<open>
  The rest of the basename has to be there. For the basename that is the underscore
  alone the replacement leaves an empty base, \<open>path.format\<close> falls back to name and
  extension, and the path stays as it is. No file of the project pass has such a name,
  by \<open>filtered_file_has_rest\<close>.
\<close>

lemma lone_underscore_kept:
  "fst (makeSymbolsForDocument envUnderscore emptyState (makeEntryFile ''/r/_'' 10) (settingsOf 1 False))
     = Inr (tableOf ''/r/_'' [] 10)
   \<and> cache (snd (makeSymbolsForDocument envUnderscore emptyState (makeEntryFile ''/r/_'' 10)
                   (settingsOf 1 False))) ''/r/_''
       = Some (tableOf ''/r/_'' [] 10)"
  by code_simp

section \<open>Excluding a directory by name\<close>










section \<open>A chain of imports longer than the depth bound\<close>

lemma length_chainPath: "length (chainPath i) = i + 11"
  by (simp add: chainPath_def)

lemma chainPath_inj: "chainPath i = chainPath j \<Longrightarrow> i = j"
proof -
  assume "chainPath i = chainPath j"
  then have "length (chainPath i) = length (chainPath j)" by (rule arg_cong)
  then show "i = j" by (simp only: length_chainPath add_right_cancel)
qed

lemma chainIndex_chainPath: "chainIndex (chainPath i) = Some i"
  by (simp add: chainIndex_def length_chainPath)

lemma chainPath_split: "chainPath i = ''/lib'' @ CHR ''/'' # (CHR ''c'' # replicate i CHR ''x'' @ ''.scss'')"
  by (simp add: chainPath_def)

lemma chainBase: "CHR ''c'' # replicate i CHR ''x'' @ ''.scss'' \<noteq> []"
  "CHR ''/'' \<notin> set (CHR ''c'' # replicate i CHR ''x'' @ ''.scss'')"
  by auto

lemma base_chainPath: "base (path_parse (chainPath i)) = CHR ''c'' # replicate i CHR ''x'' @ ''.scss''"
  unfolding chainPath_split by (rule path_parse_in_dir(1)[OF chainBase])

lemma partialPath_chainPath:
  "partialPath (chainPath i) = ''/lib/_c'' @ replicate i CHR ''x'' @ ''.scss''"
  unfolding chainPath_split using partialPath_in_dir[OF chainBase, of "''/lib''" i] by simp

lemma chainIndex_partial: "chainIndex (partialPath (chainPath i)) = None"
  unfolding partialPath_chainPath by (simp add: chainIndex_def chainPath_def)

lemma chainPath_not_main: "chainPath i \<noteq> ''/r/main.scss''"
  by (simp add: chainPath_def)

lemma partial_not_main: "partialPath (chainPath i) \<noteq> ''/r/main.scss''"
  unfolding partialPath_chainPath by simp

lemma collect_chain:
  "collectImportedFiles [chainTable 0] [chainTable n]
     = [chainPath (Suc n), partialPath (chainPath (Suc n))]"
  using chainPath_not_main[of "Suc n"] chainPath_not_main[of "Suc 0"]
  by (simp add: collectImportedFiles_def pushImport_def chainTable_def tableOf_def importOf_def
      noSymbols_def)

lemma extract_chain:
  assumes "1 \<le> i" and "i < n"
  shows "makeSymbolsForDocument (chainEnv n) st (makeEntryFile (chainPath i) 10) settings
     = (Inr (chainTable i),
        cache_update (\<lambda>c. c(chainPath i \<mapsto> chainTable i)) (st\<lparr>parsed := parsed st @ [chainPath i]\<rparr>))"
  using assms chainPath_not_main[of i]
  by (simp add: makeSymbolsForDocument_def makeEntryFile_def chainEnv_def chainIndex_chainPath
      base_chainPath startsWith_def parseDocument_def chainTable_def tableOf_def importOf_def
      noSymbols_def Let_def)

lemma resolve_chain:
  assumes "1 \<le> i" and "i < n" and "cache st (chainPath i) = None"
  shows "resolveImported (chainEnv n) settings st (chainPath i)
     = (Some (chainTable i),
        cache_update (\<lambda>c. c(chainPath i \<mapsto> chainTable i)) (st\<lparr>parsed := parsed st @ [chainPath i]\<rparr>))"
proof -
  have "statFile (chainEnv n) (chainPath i) = Inr 10"
    using assms(1,2) chainPath_not_main[of i] by (simp add: chainEnv_def chainIndex_chainPath)
  with assms(3) show ?thesis
    by (simp add: resolveImported_def Let_def freshCached_def extract_chain[OF assms(1,2)])
qed

lemma resolve_partial:
  "resolveImported (chainEnv n) settings st (partialPath (chainPath i)) = (None, st)"
  using partial_not_main[of i]
  by (simp add: resolveImported_def chainEnv_def chainIndex_partial)

lemma wave_chain:
  assumes "1 \<le> i" and "i < n" and "cache st (chainPath i) = None"
  shows "resolveAll (chainEnv n) settings st [chainPath i, partialPath (chainPath i)]
     = ([Some (chainTable i), None],
        cache_update (\<lambda>c. c(chainPath i \<mapsto> chainTable i)) (st\<lparr>parsed := parsed st @ [chainPath i]\<rparr>))"
  by (simp add: Let_def resolve_chain[OF assms] resolve_partial)


lemma chain_run:
  assumes "n \<le> D" and "D < N" and "\<And>j. n < j \<Longrightarrow> cache st (chainPath j) = None"
  shows "\<exists>st'. recurse (chainEnv N) (settingsOf (int D) b) [chainTable 0] n accum [chainTable n] st
            = Some (accum @ map chainTable [Suc n..<Suc D], D, st')
          \<and> parsed st' = parsed st @ map chainPath [Suc n..<Suc D]"
  using assms
proof (induction "D - n" arbitrary: n accum st)
  case 0
  then have "n = D" by simp
  then show ?case by (simp add: recurse_stop settingsOf_def)
next
  case (Suc k)
  then have lt: "n < D" by simp
  let ?c = "collectImportedFiles [chainTable 0] [chainTable n]"
  let ?st1 = "cache_update (\<lambda>c. c(chainPath (Suc n) \<mapsto> chainTable (Suc n)))
                (st\<lparr>parsed := parsed st @ [chainPath (Suc n)]\<rparr>)"
  have c: "?c = [chainPath (Suc n), partialPath (chainPath (Suc n))]" by (rule collect_chain)
  have w: "resolveAll (chainEnv N) (settingsOf (int D) b) st ?c = ([Some (chainTable (Suc n)), None], ?st1)"
    unfolding c using lt Suc.prems(2) Suc.prems(3)[of "Suc n"] by (intro wave_chain) simp_all
  have step: "recurse (chainEnv N) (settingsOf (int D) b) [chainTable 0] n accum [chainTable n] st
        = recurse (chainEnv N) (settingsOf (int D) b) [chainTable 0] (Suc n)
            (accum @ [chainTable (Suc n)]) [chainTable (Suc n)] ?st1"
  proof -
    have ne: "[chainTable n] \<noteq> []" "int n \<noteq> scanImportedFilesDepth (settingsOf (int D) b)"
      "?c \<noteq> []"
      using lt by (simp_all add: settingsOf_def c)
    show ?thesis
      by (simp only: recurse_step[OF ne] w fst_conv snd_conv filterBoolean.simps)
  qed
  have k: "k = D - Suc n" using Suc.hyps(2) by simp
  have le: "Suc n \<le> D" using lt by simp
  have cache1: "\<And>j. Suc n < j \<Longrightarrow> cache ?st1 (chainPath j) = None"
  proof -
    fix j assume j: "Suc n < j"
    then have "chainPath j \<noteq> chainPath (Suc n)" using chainPath_inj by blast
    with Suc.prems(3)[of j] j show "cache ?st1 (chainPath j) = None" by simp
  qed
  from Suc.hyps(1)[OF k le Suc.prems(2) cache1, of "accum @ [chainTable (Suc n)]"]
  obtain st' where
    r: "recurse (chainEnv N) (settingsOf (int D) b) [chainTable 0] (Suc n)
            (accum @ [chainTable (Suc n)]) [chainTable (Suc n)] ?st1
        = Some ((accum @ [chainTable (Suc n)]) @ map chainTable [Suc (Suc n)..<Suc D], D, st')"
    and p: "parsed st' = parsed ?st1 @ map chainPath [Suc (Suc n)..<Suc D]" by blast
  have u: "[Suc n..<Suc D] = Suc n # [Suc (Suc n)..<Suc D]" using lt by (simp add: upt_conv_Cons)
  from r p show ?case unfolding step u by simp
qed

lemma chain_documents:
  "chainPath (Suc (D + k)) \<notin> set (map document (map chainTable [1..<Suc D]))"
proof
  assume "chainPath (Suc (D + k)) \<in> set (map document (map chainTable [1..<Suc D]))"
  then obtain i where i: "1 \<le> i" "i \<le> D" and "chainPath (Suc (D + k)) = document (chainTable i)"
    by auto
  then have "chainPath (Suc (D + k)) = chainPath i"
    by (simp add: chainTable_def tableOf_def)
  then have "Suc (D + k) = i" by (rule chainPath_inj)
  with i show False by simp
qed

lemma base_main: "base (path_parse ''/r/main.scss'') = ''main.scss''"
  using path_parse_in_dir(1)[of "''main.scss''" "''/r''"] by simp

lemma extract_main:
  "makeSymbolsForDocument (chainEnv n) st (makeEntryFile ''/r/main.scss'' 10) settings
     = (Inr (chainTable 0),
        cache_update (\<lambda>c. c(''/r/main.scss'' \<mapsto> chainTable 0)) (st\<lparr>parsed := parsed st @ [''/r/main.scss'']\<rparr>))"
  by (simp add: makeSymbolsForDocument_def makeEntryFile_def chainEnv_def
      base_main startsWith_def parseDocument_def chainTable_def tableOf_def importOf_def
      noSymbols_def Let_def)

lemma project_chain:
  "scanEvents (chainEnv n) (settingsOf d b) None emptyState [fileEvent ''/r/main.scss'' 10]
     = ([Inr (chainTable 0)], [],
        cache_update (\<lambda>c. c(''/r/main.scss'' \<mapsto> chainTable 0))
          (emptyState\<lparr>parsed := parsed emptyState @ [''/r/main.scss'']\<rparr>))"
proof -
  have f: "scannerFilter (chainEnv n) \<lparr>path = ''/r/main.scss'', isFile = True, stat_ctime = 10\<rparr> None"
    by (simp add: scannerFilter_def sliceLast_def)
  have o: "onFile (chainEnv n) (settingsOf d b) emptyState \<lparr>path = ''/r/main.scss'', isFile = True, stat_ctime = 10\<rparr>
      = (Inr (chainTable 0),
        cache_update (\<lambda>c. c(''/r/main.scss'' \<mapsto> chainTable 0))
          (emptyState\<lparr>parsed := parsed emptyState @ [''/r/main.scss'']\<rparr>))"
  proof -
    have fc: "freshCached (cache emptyState p) entry = None" for p entry
      by (simp add: freshCached_def emptyState_def)
    show ?thesis by (simp add: onFile_def Let_def fc extract_main)
  qed
  show ?thesis
    by (simp add: fileEvent_def deref_def f o Let_def)
qed

lemma chain_doScanner:
  "\<exists>st'. doScanner (chainEnv (D + 5)) ''/r'' (settingsOf (int D) False) emptyState
      = Some (Inr (map chainTable [0..<Suc D]), st')
     \<and> parsed st' = ''/r/main.scss'' # map chainPath [1..<Suc D]"
proof -
  let ?st1 = "cache_update (\<lambda>c. c(''/r/main.scss'' \<mapsto> chainTable 0))
          (emptyState\<lparr>parsed := parsed emptyState @ [''/r/main.scss'']\<rparr>)"
  have c: "\<And>j. 0 < j \<Longrightarrow> cache ?st1 (chainPath j) = None"
    using chainPath_not_main by (simp add: emptyState_def)
  from chain_run[of 0 D "D + 5" ?st1 False "[]", OF _ _ c]
  obtain st' where
    r: "recurse (chainEnv (D + 5)) (settingsOf (int D) False) [chainTable 0] 0 [] [chainTable 0] ?st1
       = Some (map chainTable [1..<Suc D], D, st')"
    and p: "parsed st' = parsed ?st1 @ map chainPath [1..<Suc D]"
    by auto
  have e: "expandExclude (settingsOf (int D) False) emptyState = emptyState"
    by (simp add: expandExclude_def settingsOf_def deref_def)
  have s: "scannerExclude (settingsOf (int D) False) = None" "scanImportedFiles (settingsOf (int D) False)"
    "readdirStreamStat (chainEnv (D + 5)) ''/r'' (scannerDepth (settingsOf (int D) False)) = [fileEvent ''/r/main.scss'' 10]"
    by (simp_all add: settingsOf_def chainEnv_def)
  have u: "[0..<Suc D] = 0 # [1..<Suc D]" by (simp add: upt_conv_Cons)
  have "doScanner (chainEnv (D + 5)) ''/r'' (settingsOf (int D) False) emptyState
      = Some (Inr (map chainTable [0..<Suc D]), st')"
    unfolding u
    by (simp add: doScanner_def Let_def e s project_chain scannerImportedFiles_def r
        firstError_def ifShown_def settle_def)
  with p show ?thesis by (auto simp: emptyState_def)
qed

text \<open>
  C6. The depth bound is \<open>D\<close> and the chain has \<open>D + 5\<close> files beyond the project file. The
  resolver returns, without error and with the counter at \<open>D\<close>, exactly the tables of the
  first \<open>D\<close> files of the chain, one per wave; only these were parsed; no file further
  down the chain is in the result; and \<open>doScanner\<close> resolves with the project table
  followed by these \<open>D\<close> tables.
\<close>

theorem import_depth_bound:
  "\<exists>accum st'.
     scannerImportedFiles (chainEnv (D + 5)) [chainTable 0] (settingsOf (int D) False) emptyState
       = Some (accum, D, st')
     \<and> accum = map chainTable [1..<Suc D]
     \<and> parsed st' = map chainPath [1..<Suc D]
     \<and> (\<forall>k. chainPath (Suc (D + k)) \<notin> set (map document accum))
     \<and> (\<exists>st''. doScanner (chainEnv (D + 5)) ''/r'' (settingsOf (int D) False) emptyState
                  = Some (Inr (chainTable 0 # accum), st''))"
proof -
  have "\<And>j. 0 < j \<Longrightarrow> cache emptyState (chainPath j) = None" by (simp add: emptyState_def)
  from chain_run[of 0 D "D + 5" emptyState False "[]", OF _ _ this]
  obtain st' where
    "recurse (chainEnv (D + 5)) (settingsOf (int D) False) [chainTable 0] 0 [] [chainTable 0] emptyState
       = Some (map chainTable [1..<Suc D], D, st')"
    and "parsed st' = map chainPath [1..<Suc D]"
    by (auto simp: emptyState_def)
  moreover have "[0..<Suc D] = 0 # [1..<Suc D]" by (simp add: upt_conv_Cons)
  ultimately show ?thesis
    using chain_documents[of D] chain_doScanner[of D]
    by (auto simp: scannerImportedFiles_def)
qed

theorem import_depth_bound_at_2:
  "map_option (\<lambda>r. (map document (fst r), fst (snd r), parsed (snd (snd r))))
     (scannerImportedFiles (chainEnv 7) [chainTable 0] (settingsOf 2 False) emptyState)
   = Some ([''/lib/cx.scss'', ''/lib/cxx.scss''], 2, [''/lib/cx.scss'', ''/lib/cxx.scss''])"
proof -
  from import_depth_bound[of 2] obtain accum st' where
    r: "scannerImportedFiles (chainEnv (2 + 5)) [chainTable 0] (settingsOf (int 2) False) emptyState
          = Some (accum, 2, st')"
    and a: "accum = map chainTable [1..<Suc 2]"
    and p: "parsed st' = map chainPath [1..<Suc 2]" by blast
  have docs: "map document (map chainTable [1..<Suc 2]) = [''/lib/cx.scss'', ''/lib/cxx.scss'']"
    by code_simp
  have paths: "map chainPath [1..<Suc 2] = [''/lib/cx.scss'', ''/lib/cxx.scss'']"
    by code_simp
  from r a p docs paths show ?thesis by simp
qed

end
